theory Spec2Isabelle
  imports Main
begin

section \<open>Download and materialise: \<^verbatim>\<open>runpod/serverless/utils/rp_download.py\<close>\<close>

text \<open>
  A shallow embedding of the two entry points of the module,
  \<^verbatim>\<open>download_files_from_urls\<close> (batch download with retry) and \<^verbatim>\<open>file\<close>
  (single download with optional zip extraction), together with the library functions
  they call. Python strings and byte strings are modelled as \<^typ>\<open>string\<close>; paths follow
  \<^verbatim>\<open>posixpath\<close>. Everything outside the process (the network, the file system, the
  random source of \<^verbatim>\<open>uuid.uuid4\<close>, the archive reader) is a field of an explicit
  \<open>world\<close> that each operation takes and returns.
\<close>

subsection \<open>Python string helpers\<close>

abbreviation LF :: char where "LF \<equiv> CHR 0x0A"
abbreviation CR :: char where "CR \<equiv> CHR 0x0D"
abbreviation TAB :: char where "TAB \<equiv> CHR 0x09"
abbreviation DQUOTE :: char where "DQUOTE \<equiv> CHR 0x22"

text \<open>\<^verbatim>\<open>s.startswith(p)\<close>.\<close>

definition startswith :: "string \<Rightarrow> string \<Rightarrow> bool" where
  "startswith s p = (take (length p) s = p)"

text \<open>\<^verbatim>\<open>s.endswith(p)\<close>.\<close>

definition endswith :: "string \<Rightarrow> string \<Rightarrow> bool" where
  "endswith s p = (length p \<le> length s \<and> drop (length s - length p) s = p)"

text \<open>\<^verbatim>\<open>s.find(c)\<close> and \<^verbatim>\<open>s.rfind(c)\<close> for a one-character \<open>c\<close>: the index of the
  first (last) occurrence, or \<open>-1\<close>.\<close>

definition py_find :: "char \<Rightarrow> string \<Rightarrow> int" where
  "py_find c s =
     (if c \<in> set s then int (length (takeWhile (\<lambda>x. x \<noteq> c) s)) else - 1)"

definition py_rfind :: "char \<Rightarrow> string \<Rightarrow> int" where
  "py_rfind c s =
     (if c \<in> set s
      then int (length s) - 1 - int (length (takeWhile (\<lambda>x. x \<noteq> c) (rev s)))
      else - 1)"

text \<open>\<^verbatim>\<open>s.split(c)\<close> for a one-character separator: never the empty list.\<close>

fun py_split :: "char \<Rightarrow> string \<Rightarrow> string list" where
  "py_split c [] = [[]]"
| "py_split c (x # xs) =
     (if x = c then [] # py_split c xs
      else (case py_split c xs of
              [] \<Rightarrow> [[x]]
            | p # ps \<Rightarrow> (x # p) # ps))"

text \<open>\<^verbatim>\<open>sep.join(parts)\<close> for a one-character separator.\<close>

fun py_join :: "char \<Rightarrow> string list \<Rightarrow> string" where
  "py_join c [] = []"
| "py_join c [p] = p"
| "py_join c (p # q # ps) = p @ c # py_join c (q # ps)"

text \<open>\<^verbatim>\<open>s.replace('.', '')\<close>.\<close>

definition remove_dots :: "string \<Rightarrow> string" where
  "remove_dots s = filter (\<lambda>x. x \<noteq> CHR ''.'') s"

text \<open>\<^verbatim>\<open>s.lstrip(chars)\<close> and \<^verbatim>\<open>s.rstrip(chars)\<close>.\<close>

definition lstrip :: "char set \<Rightarrow> string \<Rightarrow> string" where
  "lstrip cs s = dropWhile (\<lambda>x. x \<in> cs) s"

definition rstrip :: "char set \<Rightarrow> string \<Rightarrow> string" where
  "rstrip cs s = rev (dropWhile (\<lambda>x. x \<in> cs) (rev s))"

text \<open>\<^verbatim>\<open>c.lower()\<close> and \<^verbatim>\<open>s.lower()\<close> on ASCII.\<close>

definition lower_char :: "char \<Rightarrow> char" where
  "lower_char c =
     (case map_of (zip ''ABCDEFGHIJKLMNOPQRSTUVWXYZ'' ''abcdefghijklmnopqrstuvwxyz'') c of
        Some l \<Rightarrow> l
      | None \<Rightarrow> c)"

definition py_lower :: "string \<Rightarrow> string" where
  "py_lower s = map lower_char s"

subsection \<open>\<^verbatim>\<open>os.path\<close> (\<^verbatim>\<open>posixpath\<close>)\<close>

text \<open>\<^verbatim>\<open>os.path.join(a, *p)\<close>: a component that starts with a slash restarts the path.\<close>

definition join2 :: "string \<Rightarrow> string \<Rightarrow> string" where
  "join2 path b =
     (if startswith b ''/'' then b
      else if path = [] \<or> endswith path ''/'' then path @ b
      else path @ ''/'' @ b)"

definition path_join :: "string \<Rightarrow> string list \<Rightarrow> string" where
  "path_join a p = foldl join2 a p"

definition isabs :: "string \<Rightarrow> bool" where
  "isabs p = startswith p ''/''"

text \<open>The loop of \<^verbatim>\<open>os.path.normpath\<close> over the components, \<open>new_comps\<close> being the
  list built so far.\<close>

fun normpath_comps :: "bool \<Rightarrow> string list \<Rightarrow> string list \<Rightarrow> string list" where
  "normpath_comps initial_slashes new_comps [] = new_comps"
| "normpath_comps initial_slashes new_comps (part # comps) =
     \<comment> \<open>the second test is the negation of the source's condition for appending\<close>
     (if part = [] \<or> part = ''.'' then normpath_comps initial_slashes new_comps comps
      else if part = ''..'' \<and> (initial_slashes \<or> new_comps \<noteq> []) \<and>
              (new_comps = [] \<or> last new_comps \<noteq> ''..'')
      then (if new_comps \<noteq> []
            then normpath_comps initial_slashes (butlast new_comps) comps
            else normpath_comps initial_slashes new_comps comps)
      else normpath_comps initial_slashes (new_comps @ [part]) comps)"

definition normpath :: "string \<Rightarrow> string" where
  "normpath path =
     (if path = [] then ''.''
      else
        let initial_slashes =
              (if startswith path ''/''
               then (if startswith path ''//'' \<and> (startswith path ''///'' = False)
                     then (2::nat) else 1)
               else 0);
            comps = normpath_comps (0 < initial_slashes) [] (py_split CHR ''/'' path);
            path' = replicate initial_slashes CHR ''/'' @ py_join CHR ''/'' comps
        in if path' = [] then ''.'' else path')"

text \<open>\<^verbatim>\<open>os.path.abspath(path)\<close>, with the current working directory as an argument.\<close>

definition abspath :: "string \<Rightarrow> string \<Rightarrow> string" where
  "abspath cwd path = normpath (if isabs path then path else join2 cwd path)"

text \<open>\<^verbatim>\<open>os.path.basename(p)\<close>: \<^verbatim>\<open>p[p.rfind('/') + 1:]\<close>.\<close>

definition basename :: "string \<Rightarrow> string" where
  "basename p = drop (nat (py_rfind CHR ''/'' p + 1)) p"

text \<open>\<^verbatim>\<open>os.path.splitext(p)\<close>. The inner loop skips the leading dots of the last
  component: it answers whether some character in \<^verbatim>\<open>p[filenameIndex:dotIndex]\<close> is not a
  dot.\<close>

function splitext_loop :: "string \<Rightarrow> int \<Rightarrow> int \<Rightarrow> bool" where
  "splitext_loop p filenameIndex dotIndex =
     (if filenameIndex < dotIndex
      then (if p ! nat filenameIndex = CHR ''.''
            then splitext_loop p (filenameIndex + 1) dotIndex
            else True)
      else False)"
  by pat_completeness auto
termination
  by (relation "measure (\<lambda>(p, filenameIndex, dotIndex). nat (dotIndex - filenameIndex))") auto

declare splitext_loop.simps [simp del]

definition splitext :: "string \<Rightarrow> string \<times> string" where
  "splitext p =
     (let sepIndex = py_rfind CHR ''/'' p;
          dotIndex = py_rfind CHR ''.'' p
      in if sepIndex < dotIndex \<and> splitext_loop p (sepIndex + 1) dotIndex
         then (take (nat dotIndex) p, drop (nat dotIndex) p)
         else (p, []))"

subsection \<open>Exceptions\<close>

text \<open>The exceptions that can reach the module. \<open>RequestException\<close> stands for the
  transport errors \<^verbatim>\<open>requests.get\<close> raises (timeout, connection error, invalid URL: all
  subclasses of \<^verbatim>\<open>requests.exceptions.RequestException\<close>); \<open>HTTPError\<close>, raised by
  \<^verbatim>\<open>raise_for_status\<close> with the status code, is a subclass of it as well.\<close>

datatype exn =
    RequestException string
  | HTTPError int
  | OSError string
  | BadZipFile
  | ValueError string

text \<open>\<^verbatim>\<open>isinstance(e, requests.exceptions.RequestException)\<close>: what
  \<^verbatim>\<open>except RequestException\<close> and \<^verbatim>\<open>backoff.on_exception\<close> catch.\<close>

fun is_RequestException :: "exn \<Rightarrow> bool" where
  "is_RequestException (RequestException m) = True"
| "is_RequestException (HTTPError status) = True"
| "is_RequestException e = False"

subsection \<open>\<^verbatim>\<open>urllib.parse.urlparse(url).path\<close>\<close>

definition C0_CONTROL_OR_SPACE :: "char set" where
  "C0_CONTROL_OR_SPACE = {c. (of_char c :: nat) \<le> 32}"

definition is_ascii_alpha :: "char \<Rightarrow> bool" where
  "is_ascii_alpha c =
     (c \<in> set ''abcdefghijklmnopqrstuvwxyzABCDEFGHIJKLMNOPQRSTUVWXYZ'')"

definition scheme_chars :: "char set" where
  "scheme_chars =
     set ''abcdefghijklmnopqrstuvwxyzABCDEFGHIJKLMNOPQRSTUVWXYZ0123456789+-.''"

definition uses_params :: "string list" where
  "uses_params =
     [[], ''ftp'', ''hdl'', ''prospero'', ''http'', ''imap'', ''https'', ''shttp'',
      ''rtsp'', ''rtspu'', ''sip'', ''sips'', ''mms'', ''sftp'', ''tel'']"

text \<open>\<^verbatim>\<open>_splitnetloc(url, 2)\<close>: the network location runs from index 2 to the first of
  \<^verbatim>\<open>/ ? #\<close>.\<close>

definition splitnetloc :: "string \<Rightarrow> string \<times> string" where
  "splitnetloc url =
     (takeWhile (\<lambda>c. c \<notin> set ''/?#'') (drop 2 url),
      dropWhile (\<lambda>c. c \<notin> set ''/?#'') (drop 2 url))"

text \<open>\<^verbatim>\<open>urlsplit(url)\<close>, returning scheme, netloc and path (query and fragment are cut
  off and not used by the module). The checks of a bracketed host against the IPv6 syntax
  and of a non-ASCII host under NFKC normalisation, which only add further
  \<open>ValueError\<close>s, are not modelled.\<close>

definition urlsplit :: "string \<Rightarrow> exn + string \<times> string \<times> string" where
  "urlsplit url0 =
     (let url1 = lstrip C0_CONTROL_OR_SPACE url0;
          url2 = filter (\<lambda>c. c \<notin> {TAB, CR, LF}) url1;
          i = py_find CHR '':'' url2;
          has_scheme = (0 < i \<and> is_ascii_alpha (hd url2) \<and>
                        list_all (\<lambda>c. c \<in> scheme_chars) (take (nat i) url2));
          scheme = (if has_scheme then py_lower (take (nat i) url2) else []);
          url3 = (if has_scheme then drop (nat i + 1) url2 else url2);
          has_netloc = (take 2 url3 = ''//'');
          netloc = (if has_netloc then fst (splitnetloc url3) else []);
          url4 = (if has_netloc then snd (splitnetloc url3) else url3)
      in if (CHR ''['' \<in> set netloc \<and> CHR '']'' \<notin> set netloc) \<or>
            (CHR '']'' \<in> set netloc \<and> CHR ''['' \<notin> set netloc)
         then Inl (ValueError ''Invalid IPv6 URL'')
         else
           let url5 = takeWhile (\<lambda>c. c \<noteq> CHR ''#'') url4;
               url6 = takeWhile (\<lambda>c. c \<noteq> CHR ''?'') url5
           in Inr (scheme, netloc, url6))"

text \<open>\<^verbatim>\<open>_splitparams(url)[0]\<close>: the path without the parameters of its last segment.\<close>

definition splitparams :: "string \<Rightarrow> string" where
  "splitparams url =
     (if CHR ''/'' \<in> set url
      then
        let start = nat (py_rfind CHR ''/'' url)
        in if CHR '';'' \<in> set (drop start url)
           then take (start + length (takeWhile (\<lambda>c. c \<noteq> CHR '';'') (drop start url))) url
           else url
      else take (nat (py_find CHR '';'' url)) url)"

definition urlparse_path :: "string \<Rightarrow> exn + string" where
  "urlparse_path url =
     (case urlsplit url of
        Inl e \<Rightarrow> Inl e
      | Inr (scheme, netloc, path) \<Rightarrow>
          if scheme \<in> set uses_params \<and> CHR '';'' \<in> set path
          then Inr (splitparams path)
          else Inr path)"

subsection \<open>\<^verbatim>\<open>re.findall("filename=(.+)", s)\<close>\<close>

text \<open>The pattern matches at a position where the text \<^verbatim>\<open>filename=\<close> is followed by at
  least one character other than a line feed (\<^verbatim>\<open>.\<close> matches no line feed); the group is
  the longest run of such characters. The search goes on after the match.\<close>

function re_findall_filename :: "string \<Rightarrow> string list" where
  "re_findall_filename s =
     (if s = [] then []
      else if startswith s ''filename='' \<and> takeWhile (\<lambda>c. c \<noteq> LF) (drop 9 s) \<noteq> []
      then takeWhile (\<lambda>c. c \<noteq> LF) (drop 9 s) #
           re_findall_filename (dropWhile (\<lambda>c. c \<noteq> LF) (drop 9 s))
      else re_findall_filename (tl s))"
  by pat_completeness auto
termination
proof (relation "measure length")
  show "wf (measure length)" by simp
next
  fix s :: string
  assume "s \<noteq> []"
  have "length (dropWhile (\<lambda>c. c \<noteq> LF) (drop 9 s)) \<le> length (drop 9 s)"
    by (rule length_dropWhile_le)
  then show "(dropWhile (\<lambda>c. c \<noteq> LF) (drop 9 s), s) \<in> measure length"
    using \<open>s \<noteq> []\<close> by (cases s) auto
next
  fix s :: string
  assume "s \<noteq> []"
  then show "(tl s, s) \<in> measure length" by (cases s) auto
qed

declare re_findall_filename.simps [simp del]

subsection \<open>\<^verbatim>\<open>email.message_from_string(text).items()\<close>\<close>

text \<open>The lines of a text with their line ends kept (\<^verbatim>\<open>\n\<close>, \<^verbatim>\<open>\r\n\<close>, \<^verbatim>\<open>\r\<close>), as the
  feed parser cuts them; \<open>cur\<close> is the line read so far.\<close>

fun readlines :: "string \<Rightarrow> string \<Rightarrow> string list" where
  "readlines cur [] = (if cur = [] then [] else [cur])"
| "readlines cur [c] = [cur @ [c]]"
| "readlines cur (c # d # cs) =
     (if c = LF then (cur @ [c]) # readlines [] (d # cs)
      else if c = CR \<and> d = LF then (cur @ [c, d]) # readlines [] cs
      else if c = CR then (cur @ [c]) # readlines [] (d # cs)
      else readlines (cur @ [c]) (d # cs))"

text \<open>\<^verbatim>\<open>headerRE\<close>: \<^verbatim>\<open>^(From |[\041-\071\073-\176]*:|[\t ])\<close>.\<close>

definition is_ftext :: "char \<Rightarrow> bool" where
  "is_ftext c =
     ((33 \<le> (of_char c :: nat) \<and> (of_char c :: nat) \<le> 57) \<or>
      (59 \<le> (of_char c :: nat) \<and> (of_char c :: nat) \<le> 126))"

definition headerRE_match :: "string \<Rightarrow> bool" where
  "headerRE_match line =
     (startswith line ''From '' \<or> startswith (dropWhile is_ftext line) '':'' \<or>
      startswith line [TAB] \<or> startswith line '' '')"

text \<open>\<^verbatim>\<open>Compat32.header_source_parse\<close>: name and value of a header from its source
  lines.\<close>

definition header_source_parse :: "string list \<Rightarrow> string \<times> string" where
  "header_source_parse sourcelines =
     (let first = hd sourcelines;
          name = takeWhile (\<lambda>c. c \<noteq> CHR '':'') first;
          val = drop 1 (dropWhile (\<lambda>c. c \<noteq> CHR '':'') first)
      in (name, rstrip {CR, LF} (lstrip {CHR '' '', TAB} val @ concat (tl sourcelines))))"

text \<open>\<^verbatim>\<open>FeedParser._parse_headers\<close>: \<open>lineno\<close> counts the lines, \<open>n\<close> is their number,
  \<open>lastheader\<close> and \<open>lastvalue\<close> are the header being collected. The result is the list
  of headers set on the message, which \<^verbatim>\<open>items()\<close> returns in order.\<close>

fun parse_headers ::
  "nat \<Rightarrow> nat \<Rightarrow> string \<Rightarrow> string list \<Rightarrow> string list \<Rightarrow> (string \<times> string) list" where
  "parse_headers lineno n lastheader lastvalue [] =
     (if lastheader = [] then [] else [header_source_parse lastvalue])"
| "parse_headers lineno n lastheader lastvalue (line # lines) =
     (if startswith line '' '' \<or> startswith line [TAB]
      then (if lastheader = []
            then parse_headers (Suc lineno) n lastheader lastvalue lines
            else parse_headers (Suc lineno) n lastheader (lastvalue @ [line]) lines)
      else
        (if lastheader = [] then [] else [header_source_parse lastvalue]) @
        (if startswith line ''From ''
         then (if lineno = 0 then parse_headers (Suc lineno) n [] [] lines
               else if Suc lineno = n then []
               else parse_headers (Suc lineno) n [] [] lines)
         else if py_find CHR '':'' line = 0
         then parse_headers (Suc lineno) n [] [] lines
         else parse_headers (Suc lineno) n
                (take (nat (py_find CHR '':'' line)) line) [line] lines))"

text \<open>The header phase of the parser followed by \<^verbatim>\<open>items()\<close>: the header lines are
  the lines up to the first one that \<^verbatim>\<open>headerRE\<close> does not match.\<close>

definition message_items :: "string \<Rightarrow> (string \<times> string) list" where
  "message_items text =
     (let headers = takeWhile headerRE_match (readlines [] text)
      in parse_headers 0 (length headers) [] [] headers)"

text \<open>\<^verbatim>\<open>dict(pairs).get(key, dflt)\<close>: a later pair overrides an earlier one.\<close>

definition dict_get :: "(string \<times> string) list \<Rightarrow> string \<Rightarrow> string \<Rightarrow> string" where
  "dict_get pairs key dflt =
     (case map_of (rev pairs) key of Some v \<Rightarrow> v | None \<Rightarrow> dflt)"

subsection \<open>The world outside the process\<close>

text \<open>A \<^verbatim>\<open>requests.Response\<close>: status code, headers and body.\<close>

record response =
  status_code :: int
  headers :: "(string \<times> string) list"
  content :: string

text \<open>
  The world an operation runs in:
  \<^item> \<open>cwd\<close>: the current working directory, which relative paths are resolved against;
  \<^item> \<open>http\<close>: what the network answers to the GET of a URL that is the \<open>n\<close>-th request
    of the run: a transport error (with its message) or a response;
  \<open>requests\<close>: the URLs requested so far, in order;
  \<^item> \<open>os_error\<close>: the paths on which the operating system refuses to create a directory
    or to write a file (permissions, read-only or full disk);
  \<open>dirs\<close> and \<open>files\<close>: the directories created and the files written, under their
    absolute paths;
  \<^item> \<open>uuid_source\<close> and \<open>uuid_count\<close>: the random source behind \<^verbatim>\<open>str(uuid.uuid4())\<close>
    and the number of identifiers drawn;
  \<^item> \<open>zip_entries\<close>: the archive reader of \<^verbatim>\<open>zipfile\<close>: the members of a byte string that
    is a zip archive (target path below the extraction directory, and content), or
    \<open>None\<close> when it is not one;
  \<^item> \<open>stdout\<close>: what \<^verbatim>\<open>print\<close> wrote: the URL and the error of each failed download.
\<close>

record world =
  cwd :: string
  http :: "string \<Rightarrow> nat \<Rightarrow> string + response"
  requests :: "string list"
  os_error :: "string \<Rightarrow> bool"
  dirs :: "string set"
  files :: "string \<Rightarrow> string option"
  uuid_source :: "nat \<Rightarrow> string"
  uuid_count :: nat
  zip_entries :: "string \<Rightarrow> (string \<times> string) list option"
  stdout :: "(string \<times> exn) list"

text \<open>\<^verbatim>\<open>response.headers.get(name)\<close> on the case-insensitive dictionary of
  \<^verbatim>\<open>requests\<close>; \<^verbatim>\<open>name in response.headers.keys()\<close> holds when it is not \<open>None\<close>.\<close>

definition headers_get :: "(string \<times> string) list \<Rightarrow> string \<Rightarrow> string option" where
  "headers_get hs name = map_of (map (\<lambda>(k, v). (py_lower k, v)) hs) (py_lower name)"

text \<open>\<^verbatim>\<open>requests.get(url, timeout=...)\<close>: the request is logged whatever its outcome.
  Time is not modelled: a timeout is one of the transport errors of \<open>http\<close>.\<close>

definition requests_get :: "string \<Rightarrow> world \<Rightarrow> (exn + response) \<times> world" where
  "requests_get url w =
     ((case http w url (length (requests w)) of
         Inl message \<Rightarrow> Inl (RequestException message)
       | Inr r \<Rightarrow> Inr r),
      w\<lparr>requests := requests w @ [url]\<rparr>)"

text \<open>\<^verbatim>\<open>response.raise_for_status()\<close>.\<close>

definition raise_for_status :: "response \<Rightarrow> exn + unit" where
  "raise_for_status r =
     (if 400 \<le> status_code r \<and> status_code r < 600
      then Inl (HTTPError (status_code r))
      else Inr ())"

text \<open>\<^verbatim>\<open>str(uuid.uuid4())\<close>.\<close>

definition uuid4 :: "world \<Rightarrow> string \<times> world" where
  "uuid4 w = (uuid_source w (uuid_count w), w\<lparr>uuid_count := Suc (uuid_count w)\<rparr>)"

text \<open>\<^verbatim>\<open>os.makedirs(name, exist_ok=True)\<close>: an existing directory is no error, an
  existing file is. The model tracks the directory itself, not the parents created with
  it.\<close>

definition makedirs :: "string \<Rightarrow> world \<Rightarrow> exn + world" where
  "makedirs name w =
     (let p = abspath (cwd w) name
      in if os_error w p \<or> files w p \<noteq> None then Inl (OSError p)
         else Inr (w\<lparr>dirs := insert p (dirs w)\<rparr>))"

text \<open>\<^verbatim>\<open>with open(name, 'wb') as f: f.write(data)\<close>.\<close>

definition write_file :: "string \<Rightarrow> string \<Rightarrow> world \<Rightarrow> exn + world" where
  "write_file name data w =
     (let p = abspath (cwd w) name
      in if os_error w p \<or> p \<in> dirs w then Inl (OSError p)
         else Inr (w\<lparr>files := (files w)(p \<mapsto> data)\<rparr>))"

text \<open>\<^verbatim>\<open>zipfile.ZipFile(zip_path, 'r').extractall(target)\<close>.\<close>

fun write_members :: "string \<Rightarrow> (string \<times> string) list \<Rightarrow> world \<Rightarrow> exn + world" where
  "write_members target [] w = Inr w"
| "write_members target ((name, data) # members) w =
     (case write_file (path_join target [name]) data w of
        Inl e \<Rightarrow> Inl e
      | Inr w' \<Rightarrow> write_members target members w')"

definition extractall :: "string \<Rightarrow> string \<Rightarrow> world \<Rightarrow> exn + world" where
  "extractall zip_path target w =
     (case files w (abspath (cwd w) zip_path) of
        None \<Rightarrow> Inl (OSError zip_path)
      | Some data \<Rightarrow>
          (case zip_entries w data of
             None \<Rightarrow> Inl BadZipFile
           | Some members \<Rightarrow> write_members target members w))"

subsection \<open>\<^verbatim>\<open>backoff.on_exception(backoff.expo, RequestException, max_tries=3)\<close>\<close>

definition max_tries :: nat where
  "max_tries = 3"

text \<open>The retry loop of the decorator; \<open>tries\<close> is the number of calls already made. A
  call that raises a \<open>RequestException\<close> is repeated unless it was the \<open>max_tries\<close>-th;
  any other exception leaves the loop at once. The source gives up when the count equals
  \<open>max_tries\<close>; counting up from 0 that is the first time it is not below it. The
  waiting time between two calls is not modelled.\<close>

function on_exception ::
  "nat \<Rightarrow> (world \<Rightarrow> (exn + 'a) \<times> world) \<Rightarrow> world \<Rightarrow> (exn + 'a) \<times> world" where
  "on_exception tries target w =
     (case target w of
        (Inr ret, w') \<Rightarrow> (Inr ret, w')
      | (Inl e, w') \<Rightarrow>
          if is_RequestException e \<and> Suc tries < max_tries
          then on_exception (Suc tries) target w'
          else (Inl e, w'))"
  by pat_completeness auto
termination
  by (relation "measure (\<lambda>(tries, target, w). max_tries - tries)") auto

declare on_exception.simps [simp del]

subsection \<open>\<^verbatim>\<open>download_files_from_urls\<close>\<close>

text \<open>\<^verbatim>\<open>f'{content_disposition}'\<close> and the truth value of \<^verbatim>\<open>content_disposition\<close>, which
  is \<open>None\<close> or a string.\<close>

definition format_optional :: "string option \<Rightarrow> string" where
  "format_optional v = (case v of None \<Rightarrow> ''None'' | Some s \<Rightarrow> s)"

definition truthy :: "string option \<Rightarrow> bool" where
  "truthy v = (case v of None \<Rightarrow> False | Some s \<Rightarrow> s \<noteq> [])"

text \<open>One call of the inner \<^verbatim>\<open>download_file\<close> (lines 32 to 39), without the decorator:
  the body and the file extension, or the exception raised.\<close>

definition download_file :: "string \<Rightarrow> world \<Rightarrow> (exn + string \<times> string) \<times> world" where
  "download_file url w =
     (case requests_get url w of
        (Inl e, w') \<Rightarrow> (Inl e, w')
      | (Inr response, w') \<Rightarrow>
          (case raise_for_status response of
             Inl e \<Rightarrow> (Inl e, w')
           | Inr u \<Rightarrow>
               let content_disposition = headers_get (headers response) ''Content-Disposition'';
                   msg = message_items (''Content-Disposition: '' @ format_optional content_disposition);
                   params = (if truthy content_disposition then msg else []);
                   file_extension = snd (splitext (dict_get params ''filename'' []))
               in (Inr (content response, file_extension), w')))"

text \<open>\<^verbatim>\<open>download_file_to_path\<close> (lines 41 to 57); \<open>download_directory\<close> is the variable of
  the enclosing function.\<close>

definition download_file_to_path ::
  "string \<Rightarrow> string option \<Rightarrow> world \<Rightarrow> exn + string option \<times> world" where
  "download_file_to_path download_directory url w =
     (case url of
        None \<Rightarrow> Inr (None, w)
      | Some u \<Rightarrow>
          (case on_exception 0 (download_file u) w of
             (Inl err, w1) \<Rightarrow>
               if is_RequestException err
               then Inr (None, w1\<lparr>stdout := stdout w1 @ [(u, err)]\<rparr>)
               else Inl err
           | (Inr (file_data, file_extension), w1) \<Rightarrow>
               let file_name = fst (uuid4 w1) @ file_extension;
                   w2 = snd (uuid4 w1);
                   output_file_path = path_join download_directory [file_name]
               in (case write_file output_file_path file_data w2 of
                     Inl e \<Rightarrow> Inl e
                   | Inr w3 \<Rightarrow> Inr (Some (abspath (cwd w3) output_file_path), w3))))"

text \<open>\<^verbatim>\<open>list(executor.map(f, urls))\<close>: the results in the order of the inputs. The
  worker threads are modelled by the schedule that runs the calls one after the other;
  an exception of a call is raised when its result is asked for.\<close>

fun executor_map ::
  "('a \<Rightarrow> world \<Rightarrow> exn + 'b \<times> world) \<Rightarrow> 'a list \<Rightarrow> world \<Rightarrow> exn + 'b list \<times> world" where
  "executor_map f [] w = Inr ([], w)"
| "executor_map f (x # xs) w =
     (case f x w of
        Inl e \<Rightarrow> Inl e
      | Inr (y, w1) \<Rightarrow>
          (case executor_map f xs w1 of
             Inl e \<Rightarrow> Inl e
           | Inr (ys, w2) \<Rightarrow> Inr (y # ys, w2)))"

text \<open>The argument \<^verbatim>\<open>urls: Union[str, List[str]]\<close>; an entry of the list may be
  \<open>None\<close>.\<close>

datatype urls_arg = Str string | List "string option list"

text \<open>Line 28: the directory the files of a job are saved in.\<close>

definition download_directory :: "string \<Rightarrow> world \<Rightarrow> string" where
  "download_directory job_id w =
     abspath (cwd w) (path_join ''jobs'' [job_id, ''downloaded_files''])"

definition download_files_from_urls ::
  "string \<Rightarrow> urls_arg \<Rightarrow> world \<Rightarrow> exn + string option list \<times> world" where
  "download_files_from_urls job_id urls w =
     (case makedirs (download_directory job_id w) w of
        Inl e \<Rightarrow> Inl e
      | Inr w1 \<Rightarrow>
          executor_map (download_file_to_path (download_directory job_id w))
            (case urls of Str u \<Rightarrow> [Some u] | List us \<Rightarrow> us) w1)"

subsection \<open>\<^verbatim>\<open>file\<close>\<close>

text \<open>The dictionary \<^verbatim>\<open>file\<close> returns.\<close>

record downloaded_file =
  file_path :: string
  type :: string
  original_name :: string
  extracted_path :: "string option"

text \<open>Lines 83 to 94: the name from the \<^verbatim>\<open>Content-Disposition\<close> header if the pattern
  finds one there, else the last component of the path of the URL.\<close>

definition original_file_name :: "response \<Rightarrow> string \<Rightarrow> exn + string" where
  "original_file_name download_response file_url =
     (let found =
            (case headers_get (headers download_response) ''Content-Disposition'' of
               None \<Rightarrow> []
             | Some v \<Rightarrow> re_findall_filename v)
      in if 0 < length found then Inr (hd found)
         else (case urlparse_path file_url of
                 Inl e \<Rightarrow> Inl e
               | Inr download_path \<Rightarrow> Inr (basename download_path)))"

text \<open>Lines 104 to 111: the extraction of a zip file.\<close>

definition unzip :: "string \<Rightarrow> string \<Rightarrow> string \<Rightarrow> world \<Rightarrow> exn + string option \<times> world" where
  "unzip file_type file_name output_file_path w =
     (if file_type = ''zip''
      then
        let unziped_directory = path_join ''job_files'' [file_name]
        in (case makedirs unziped_directory w of
              Inl e \<Rightarrow> Inl e
            | Inr w1 \<Rightarrow>
                (case extractall output_file_path unziped_directory w1 of
                   Inl e \<Rightarrow> Inl e
                 | Inr w2 \<Rightarrow> Inr (Some (abspath (cwd w2) unziped_directory), w2)))
      else Inr (None, w))"

text \<open>The function \<^verbatim>\<open>file\<close> (lines 68 to 118); the name \<open>file\<close> is reserved in theory
  text.\<close>

definition file_download :: "string \<Rightarrow> world \<Rightarrow> exn + downloaded_file \<times> world" where
  "file_download file_url w =
     (case makedirs ''job_files'' w of
        Inl e \<Rightarrow> Inl e
      | Inr w1 \<Rightarrow>
          (case requests_get file_url w1 of
             (Inl e, w2) \<Rightarrow> Inl e
           | (Inr download_response, w2) \<Rightarrow>
               (case original_file_name download_response file_url of
                  Inl e \<Rightarrow> Inl e
                | Inr name \<Rightarrow>
                    let file_type = remove_dots (snd (splitext name));
                        file_name = fst (uuid4 w2);
                        w3 = snd (uuid4 w2);
                        output_file_path =
                          path_join ''job_files'' [file_name @ ''.'' @ file_type]
                    in (case write_file output_file_path (content download_response) w3 of
                          Inl e \<Rightarrow> Inl e
                        | Inr w4 \<Rightarrow>
                            (case unzip file_type file_name output_file_path w4 of
                               Inl e \<Rightarrow> Inl e
                             | Inr (unziped_directory, w5) \<Rightarrow>
                                 Inr (\<lparr>file_path = abspath (cwd w5) output_file_path,
                                       type = file_type,
                                       original_name = name,
                                       extracted_path = unziped_directory\<rparr>, w5))))))"

subsection \<open>An example world\<close>

text \<open>A server with a few resources, used to run the functions on concrete inputs. Every
  other URL times out.\<close>

definition example_responses :: "(string \<times> response) list" where
  "example_responses =
     [(''http://x/y/report.csv'',
         \<lparr>status_code = 200, headers = [], content = ''a,b''\<rparr>),
      (''http://x/PHOTO.JPG'',
         \<lparr>status_code = 200, headers = [], content = ''JFIF''\<rparr>),
      (''http://x/download'',
         \<lparr>status_code = 200,
          headers = [(''Content-Disposition'',
                      ''attachment; filename='' @ [DQUOTE] @ ''data.json'' @ [DQUOTE])],
          content = ''{}''\<rparr>),
      (''http://x/report'',
         \<lparr>status_code = 200,
          headers = [(''Content-Disposition'',
                      ''attachment; filename='' @ [DQUOTE] @ ''report.pdf'' @ [DQUOTE])],
          content = ''%PDF''\<rparr>),
      (''http://x/missing'',
         \<lparr>status_code = 404, headers = [], content = ''Not Found''\<rparr>),
      (''http://x/archive.zip'',
         \<lparr>status_code = 200, headers = [], content = ''PK''\<rparr>),
      (''http://x/files/notes.txt'',
         \<lparr>status_code = 200,
          headers = [(''Content-Disposition'', ''attachment; filename='')],
          content = ''note''\<rparr>),
      (''http://x/y/report.csv;v=1.2'',
         \<lparr>status_code = 200, headers = [], content = ''a,b''\<rparr>),
      (''http://x/y/report.csv;v=1.2?download=1'',
         \<lparr>status_code = 200, headers = [], content = ''a,b''\<rparr>)]"

definition example_world :: world where
  "example_world =
     \<lparr>cwd = ''/srv/worker'',
      http = (\<lambda>url n. case map_of example_responses url of
                         None \<Rightarrow> Inl ''timed out''
                       | Some r \<Rightarrow> Inr r),
      requests = [],
      os_error = (\<lambda>p. False),
      dirs = {},
      files = (\<lambda>p. None),
      uuid_source = (\<lambda>n. ''1b4e28ba-2fa1-4d3b-a3f5-00000000000'' @
                             [''0123456789abcdef'' ! (n mod 16)]),
      uuid_count = 0,
      zip_entries = (\<lambda>data. if data = ''PK'' then Some [(''a.txt'', ''hello'')] else None),
      stdout = []\<rparr>"

section \<open>Properties\<close>

subsection \<open>The order-preserving map\<close>

lemma executor_map_append:
  "executor_map f (xs @ ys) w =
     (case executor_map f xs w of
        Inl e \<Rightarrow> Inl e
      | Inr (as, w1) \<Rightarrow>
          (case executor_map f ys w1 of
             Inl e \<Rightarrow> Inl e
           | Inr (bs, w2) \<Rightarrow> Inr (as @ bs, w2)))"
  by (induction xs arbitrary: w) (auto split: sum.splits prod.splits)

lemma executor_map_length:
  "executor_map f xs w = Inr (ys, w') \<Longrightarrow> length ys = length xs"
  by (induction xs arbitrary: w ys) (auto split: sum.splits prod.splits)

lemma executor_map_Inl:
  assumes "\<And>x v e. f x v = Inl e \<Longrightarrow> P e"
  shows "executor_map f xs w = Inl e \<Longrightarrow> P e"
  using assms by (induction xs arbitrary: w) (auto split: sum.splits prod.splits)

lemma executor_map_take:
  "executor_map f xs w = Inr (ys, w') \<Longrightarrow> i < length xs \<Longrightarrow>
   \<exists>wi wj. executor_map f (take i xs) w = Inr (take i ys, wi) \<and>
           f (xs ! i) wi = Inr (ys ! i, wj) \<and>
           executor_map f (drop (Suc i) xs) wj = Inr (drop (Suc i) ys, w')"
proof (induction xs arbitrary: w ys i)
  case Nil
  then show ?case by simp
next
  case (Cons x xs)
  from Cons.prems(1) obtain y w1 zs where
    fx: "f x w = Inr (y, w1)" and rest: "executor_map f xs w1 = Inr (zs, w')" and ys: "ys = y # zs"
    by (auto split: sum.splits prod.splits)
  show ?case
  proof (cases i)
    case 0
    with fx rest ys show ?thesis by simp
  next
    case (Suc j)
    with Cons.prems(2) have "j < length xs" by simp
    from Cons.IH[OF rest this] Suc fx ys show ?thesis by auto
  qed
qed

lemma download_file_raises:
  "download_file url w = (Inl e, w') \<Longrightarrow> is_RequestException e"
  by (auto simp: download_file_def requests_get_def raise_for_status_def Let_def
           split: sum.splits prod.splits if_splits)

lemma write_file_raises:
  "write_file name data w = Inl e \<Longrightarrow> \<not> is_RequestException e"
  by (auto simp: write_file_def Let_def split: if_splits)

lemma makedirs_raises:
  "makedirs name w = Inl e \<Longrightarrow> \<not> is_RequestException e"
  by (auto simp: makedirs_def Let_def split: if_splits)

lemma on_exception_raises:
  "on_exception tries target w = (Inl e, w') \<Longrightarrow> \<exists>v. target v = (Inl e, w')"
proof (induction tries target w rule: on_exception.induct)
  case (1 tries target w)
  obtain r w1 where tw: "target w = (r, w1)"
    by (cases "target w")
  show ?case
  proof (cases r)
    case (Inr ret)
    with tw "1.prems" show ?thesis
      by (subst (asm) on_exception.simps) simp
  next
    case (Inl x)
    show ?thesis
    proof (cases "is_RequestException x \<and> Suc tries < max_tries")
      case True
      with tw Inl "1.prems" have "on_exception (Suc tries) target w1 = (Inl e, w')"
        by (subst (asm) on_exception.simps) simp
      with "1.IH"[OF tw[symmetric] Inl True] show ?thesis .
    next
      case False
      with tw Inl "1.prems" have "target w = (Inl e, w')"
        by (subst (asm) on_exception.simps) auto
      then show ?thesis ..
    qed
  qed
qed

lemma download_file_to_path_raises:
  "download_file_to_path d url w = Inl e \<Longrightarrow> \<not> is_RequestException e"
  by (auto simp: download_file_to_path_def Let_def
           split: option.splits sum.splits prod.splits if_splits dest: write_file_raises)

subsection \<open>Retries, file system, extensions\<close>

lemma on_exception_three_failures:
  assumes "download_file u w = (Inl e1, w1)"
    and "download_file u w1 = (Inl e2, w2)"
    and "download_file u w2 = (Inl e3, w3)"
  shows "on_exception 0 (download_file u) w = (Inl e3, w3)"
proof -
  have r1: "is_RequestException e1" and r2: "is_RequestException e2"
    using assms by (auto dest: download_file_raises)
  have "on_exception 2 (download_file u) w2 = (Inl e3, w3)"
    by (subst on_exception.simps) (simp add: assms max_tries_def)
  then have "on_exception 1 (download_file u) w1 = (Inl e3, w3)"
    by (subst on_exception.simps) (simp add: assms r2 max_tries_def numeral_2_eq_2)
  then show ?thesis
    by (subst on_exception.simps) (simp add: assms r1 max_tries_def)
qed

lemma requests_get_files: "requests_get url w = (r, w') \<Longrightarrow> files w' = files w \<and> dirs w' = dirs w \<and> cwd w' = cwd w"
  by (auto simp: requests_get_def)

lemma download_file_files:
  "download_file url w = (r, w') \<Longrightarrow> files w' = files w \<and> dirs w' = dirs w \<and> cwd w' = cwd w"
  by (auto simp: download_file_def requests_get_def Let_def split: sum.splits prod.splits)

lemma takeWhile_rev_less:
  assumes "c \<in> set s"
  shows "length (takeWhile (\<lambda>x. x \<noteq> c) (rev s)) < length s"
proof -
  let ?P = "\<lambda>x. x \<noteq> c"
  have len: "length (rev s) = length (takeWhile ?P (rev s)) + length (dropWhile ?P (rev s))"
    by (metis length_append takeWhile_dropWhile_id)
  from assms have "dropWhile ?P (rev s) \<noteq> []"
    by (simp add: dropWhile_eq_Nil_conv)
  then show ?thesis
    using len by (cases "dropWhile ?P (rev s)") auto
qed

lemma py_rfind_ge: "- 1 \<le> py_rfind c s"
  using takeWhile_rev_less[of c s] by (auto simp: py_rfind_def)

lemma py_rfind_nonneg: "(0 \<le> py_rfind c s) = (c \<in> set s)"
  using takeWhile_rev_less[of c s] by (auto simp: py_rfind_def)

lemma drop_py_rfind:
  assumes "c \<in> set s"
  shows "drop (nat (py_rfind c s)) s = c # rev (takeWhile (\<lambda>x. x \<noteq> c) (rev s))"
proof -
  let ?P = "\<lambda>x. x \<noteq> c"
  let ?t = "takeWhile ?P (rev s)" and ?d = "dropWhile ?P (rev s)"
  from assms have "?d \<noteq> []" by (simp add: dropWhile_eq_Nil_conv) 
  moreover have "hd ?d = c" using \<open>?d \<noteq> []\<close> hd_dropWhile[of ?P "rev s"] by auto
  ultimately obtain d where d: "?d = c # d" by (cases ?d) auto
  have "rev s = ?t @ ?d" by simp
  then have "rev s = ?t @ c # d" using d by simp
  then have s: "s = rev d @ c # rev ?t" by (simp add: rev_swap)
  have len: "length s = length d + 1 + length ?t" by (subst s) simp
  have "py_rfind c s = int (length d)" using assms len by (simp add: py_rfind_def)
  then have "drop (nat (py_rfind c s)) s = drop (length d) (rev d @ c # rev ?t)" using s by simp
  then show ?thesis by simp
qed

lemma splitext_ext_shape:
  "snd (splitext p) = [] \<or> (\<exists>e. snd (splitext p) = CHR ''.'' # e \<and> CHR ''.'' \<notin> set e)"
proof (cases "py_rfind CHR ''/'' p < py_rfind CHR ''.'' p \<and> splitext_loop p (py_rfind CHR ''/'' p + 1) (py_rfind CHR ''.'' p)")
  case False
  then show ?thesis by (auto simp: splitext_def Let_def)
next
  case True
  then have "0 \<le> py_rfind CHR ''.'' p"
    using py_rfind_ge[of "CHR ''/''" p] by linarith
  then have "CHR ''.'' \<in> set p"
    by (simp add: py_rfind_nonneg)
  from drop_py_rfind[OF this] True show ?thesis
    by (auto simp: splitext_def Let_def dest: set_takeWhileD)
qed

lemma remove_dots_ext:
  "snd (splitext p) = [] \<and> remove_dots (snd (splitext p)) = [] \<or>
   snd (splitext p) = CHR ''.'' # remove_dots (snd (splitext p))"
proof -
  have "CHR ''.'' \<notin> set e \<Longrightarrow> filter (\<lambda>x. x \<noteq> CHR ''.'') e = e" for e
    by (induction e) auto
  with splitext_ext_shape[of p] show ?thesis
    by (auto simp: remove_dots_def)
qed

subsection \<open>What the file system operations leave unchanged\<close>

lemma makedirs_Inr:
  "makedirs name w = Inr w1 \<Longrightarrow> w1 = w\<lparr>dirs := insert (abspath (cwd w) name) (dirs w)\<rparr>"
  by (auto simp: makedirs_def Let_def split: if_splits)

lemma write_file_Inr:
  "write_file name data w = Inr w1 \<Longrightarrow>
   w1 = w\<lparr>files := (files w)(abspath (cwd w) name \<mapsto> data)\<rparr>"
  by (auto simp: write_file_def Let_def split: if_splits)

lemma write_members_keeps:
  "write_members target members w = Inr w1 \<Longrightarrow>
   cwd w1 = cwd w \<and> dirs w1 = dirs w \<and> requests w1 = requests w"
proof (induction members arbitrary: w)
  case Nil
  then show ?case by simp
next
  case (Cons m members)
  obtain name data where m: "m = (name, data)"
    by (cases m)
  from Cons.prems m obtain w2 where
    first: "write_file (path_join target [name]) data w = Inr w2"
    and rest: "write_members target members w2 = Inr w1"
    by (auto split: sum.splits)
  from write_file_Inr[OF first] Cons.IH[OF rest] show ?case
    by simp
qed

lemma extractall_keeps:
  "extractall zip_path target w = Inr w1 \<Longrightarrow>
   cwd w1 = cwd w \<and> dirs w1 = dirs w \<and> requests w1 = requests w"
  by (auto simp: extractall_def split: option.splits dest: write_members_keeps)

subsection \<open>Absolute paths\<close>

lemma startswith_slash: "startswith p ''/'' = (\<exists>q. p = CHR ''/'' # q)"
  by (cases p) (auto simp: startswith_def)

lemma normpath_keeps_root:
  assumes "startswith p ''/''"
  shows "startswith (normpath p) ''/''"
proof -
  from assms obtain q where "p = CHR ''/'' # q"
    by (auto simp: startswith_slash)
  then show ?thesis
    by (auto simp: normpath_def Let_def startswith_slash numeral_2_eq_2)
qed

lemma isabs_abspath:
  assumes "isabs d"
  shows "isabs (abspath d p)"
proof -
  from assms have "startswith (join2 d p) ''/''"
    by (auto simp: isabs_def join2_def startswith_slash)
  then show ?thesis
    by (auto simp: abspath_def isabs_def intro: normpath_keeps_root)
qed

subsection \<open>A successful call of \<^verbatim>\<open>file\<close>\<close>

lemma unzip_not_zip:
  "file_type \<noteq> ''zip'' \<Longrightarrow> unzip file_type file_name output_file_path w = Inr (None, w)"
  by (simp add: unzip_def)

lemma unzip_zip:
  assumes "unzip ''zip'' file_name output_file_path w = Inr (x, w')"
  shows "x = Some (abspath (cwd w) (path_join ''job_files'' [file_name])) \<and>
         abspath (cwd w) (path_join ''job_files'' [file_name]) \<in> dirs w' \<and>
         requests w' = requests w \<and> cwd w' = cwd w"
proof -
  let ?d = "path_join ''job_files'' [file_name]"
  from assms obtain w1 where mk: "makedirs ?d w = Inr w1"
    by (cases "makedirs ?d w") (auto simp: unzip_def Let_def)
  from assms mk obtain w2 where ex: "extractall output_file_path ?d w1 = Inr w2"
    by (cases "extractall output_file_path ?d w1") (auto simp: unzip_def Let_def)
  from assms mk ex have x: "x = Some (abspath (cwd w2) ?d)" and w': "w' = w2"
    by (auto simp: unzip_def Let_def)
  note w1 = makedirs_Inr[OF mk]
  note keep = extractall_keeps[OF ex]
  from w1 have "cwd w1 = cwd w" and "requests w1 = requests w"
    and "abspath (cwd w) ?d \<in> dirs w1"
    by simp_all
  with keep x w' show ?thesis
    by simp
qed

lemma unzip_result:
  assumes "unzip file_type file_name output_file_path w = Inr (x, w')"
  shows "(x \<noteq> None) = (file_type = ''zip'')"
    and "requests w' = requests w"
    and "cwd w' = cwd w"
    and "x = Some p \<Longrightarrow> p = abspath (cwd w) (path_join ''job_files'' [file_name]) \<and> p \<in> dirs w'"
proof -
  have all: "(x \<noteq> None) = (file_type = ''zip'') \<and> requests w' = requests w \<and> cwd w' = cwd w \<and>
     (x = Some p \<longrightarrow> p = abspath (cwd w) (path_join ''job_files'' [file_name]) \<and> p \<in> dirs w')"
  proof (cases "file_type = ''zip''")
    case True
    with assms unzip_zip[of file_name output_file_path w x w'] show ?thesis
      by auto
  next
    case False
    with assms unzip_not_zip[of file_type file_name output_file_path w] show ?thesis
      by auto
  qed
  from all show "(x \<noteq> None) = (file_type = ''zip'')" by simp
  from all show "requests w' = requests w" by simp
  from all show "cwd w' = cwd w" by simp
  from all show "x = Some p \<Longrightarrow> p = abspath (cwd w) (path_join ''job_files'' [file_name]) \<and> p \<in> dirs w'"
    by blast
qed

lemma file_download_Inr:
  assumes "file_download url w = Inr (r, w')"
  shows "\<exists>resp name w4 file_name output_file_path.
           fst (requests_get url w) = Inr resp \<and>
           original_file_name resp url = Inr name \<and>
           original_name r = name \<and>
           type r = remove_dots (snd (splitext name)) \<and>
           cwd w4 = cwd w \<and>
           requests w4 = requests w @ [url] \<and>
           unzip (type r) file_name output_file_path w4 = Inr (extracted_path r, w')"
proof -
  from assms obtain w1 where mk: "makedirs ''job_files'' w = Inr w1"
    by (auto simp: file_download_def split: sum.splits)
  note w1 = makedirs_Inr[OF mk]
  obtain res w2 where get: "requests_get url w1 = (res, w2)"
    by (cases "requests_get url w1")
  from assms mk get obtain resp where resp: "res = Inr resp"
    by (cases res) (auto simp: file_download_def)
  from assms mk get resp obtain name where name: "original_file_name resp url = Inr name"
    by (cases "original_file_name resp url") (auto simp: file_download_def)
  let ?file_type = "remove_dots (snd (splitext name))"
  let ?file_name = "fst (uuid4 w2)"
  let ?out = "path_join ''job_files'' [?file_name @ ''.'' @ ?file_type]"
  from assms mk get resp name obtain w4 where
    wr: "write_file ?out (content resp) (snd (uuid4 w2)) = Inr w4"
    by (cases "write_file ?out (content resp) (snd (uuid4 w2))")
       (auto simp: file_download_def Let_def)
  from assms mk get resp name wr obtain x where
    unz: "unzip ?file_type ?file_name ?out w4 = Inr (x, w')"
    and r: "r = \<lparr>file_path = abspath (cwd w') ?out, type = ?file_type,
                 original_name = name, extracted_path = x\<rparr>"
    by (cases "unzip ?file_type ?file_name ?out w4")
       (auto simp: file_download_def Let_def)
  have "fst (requests_get url w) = Inr resp"
    using get resp w1 by (auto simp: requests_get_def)
  moreover have "cwd w4 = cwd w" and "requests w4 = requests w @ [url]"
    using write_file_Inr[OF wr] get w1 by (auto simp: requests_get_def uuid4_def)
  ultimately show ?thesis
    using name unz r by auto
qed

subsection \<open>The last path segment and the pattern\<close>






lemma startswith_split: "startswith s p \<Longrightarrow> s = p @ drop (length p) s"
  by (metis append_take_drop_id startswith_def)

lemma re_findall_filename_first:
  assumes "\<forall>i\<in>{0..<length pre}. \<not> startswith (drop i (pre @ ''filename='' @ rest)) ''filename=''"
    and "rest \<noteq> []" and "hd rest \<noteq> LF"
  shows "re_findall_filename (pre @ ''filename='' @ rest) =
           takeWhile (\<lambda>c. c \<noteq> LF) rest #
           re_findall_filename (dropWhile (\<lambda>c. c \<noteq> LF) rest)"
  using assms(1)
proof (induction pre)
  case Nil
  from assms(2,3) have "takeWhile (\<lambda>c. c \<noteq> LF) rest \<noteq> []"
    by (cases rest) auto
  then show ?case
    by (subst re_findall_filename.simps) (simp add: startswith_def)
next
  case (Cons x pre)
  from Cons.prems have "\<not> startswith (drop 0 ((x # pre) @ ''filename='' @ rest)) ''filename=''"
    by (metis atLeastLessThan_iff length_greater_0_conv list.distinct(1) zero_le)
  then have no: "\<not> startswith (x # pre @ ''filename='' @ rest) ''filename=''"
    by simp
  have "\<forall>i\<in>{0..<length pre}. \<not> startswith (drop i (pre @ ''filename='' @ rest)) ''filename=''"
  proof
    fix i assume "i \<in> {0..<length pre}"
    then have "Suc i \<in> {0..<length (x # pre)}" by simp
    with Cons.prems have "\<not> startswith (drop (Suc i) ((x # pre) @ ''filename='' @ rest)) ''filename=''"
      by blast
    then show "\<not> startswith (drop i (pre @ ''filename='' @ rest)) ''filename=''"
      by simp
  qed
  from Cons.IH[OF this] no show ?case
    by (subst re_findall_filename.simps) simp
qed

subsection \<open>The header parser on a one-line header\<close>

lemma readlines_one_line:
  "CR \<notin> set s \<Longrightarrow> LF \<notin> set s \<Longrightarrow>
   readlines cur s = (if cur @ s = [] then [] else [cur @ s])"
  by (induction cur s rule: readlines.induct) auto

lemma content_disposition_line_is_header:
  "headerRE_match (''Content-Disposition: '' @ v)"
  by (simp add: headerRE_match_def startswith_def is_ftext_def)

lemma parse_headers_content_disposition:
  "map fst (parse_headers 0 1 [] [] [''Content-Disposition: '' @ v]) = [''Content-Disposition'']"
  by (simp add: startswith_def py_find_def header_source_parse_def)

lemma message_items_content_disposition:
  assumes "CR \<notin> set v" and "LF \<notin> set v"
  shows "map fst (message_items (''Content-Disposition: '' @ v)) = [''Content-Disposition'']"
proof -
  from assms have "readlines [] (''Content-Disposition: '' @ v) = [''Content-Disposition: '' @ v]"
    by (subst readlines_one_line) auto
  then show ?thesis
    using content_disposition_line_is_header[of v] parse_headers_content_disposition[of v]
    by (simp add: message_items_def del: parse_headers.simps)
qed

lemma dict_get_absent: "key \<notin> fst ` set pairs \<Longrightarrow> dict_get pairs key dflt = dflt"
  by (simp add: dict_get_def map_of_eq_None_iff[THEN iffD2])

lemma splitext_empty: "splitext [] = ([], [])"
  by (simp add: splitext_def py_rfind_def)

subsection \<open>The exceptions of \<^verbatim>\<open>file\<close>\<close>

lemma write_members_raises:
  "write_members target members w = Inl e \<Longrightarrow> \<exists>p. e = OSError p"
proof (induction members arbitrary: w)
  case Nil
  then show ?case by simp
next
  case (Cons m members)
  obtain name data where m: "m = (name, data)"
    by (cases m)
  show ?case
  proof (cases "write_file (path_join target [name]) data w")
    case (Inl e')
    with Cons.prems m show ?thesis
      by (auto simp: write_file_def Let_def split: if_splits)
  next
    case (Inr w1)
    with Cons.prems m Cons.IH[of w1] show ?thesis
      by simp
  qed
qed

lemma unzip_raises:
  "unzip file_type file_name output_file_path w = Inl e \<Longrightarrow> e \<noteq> HTTPError status"
  by (auto simp: unzip_def extractall_def makedirs_def Let_def
           split: if_splits sum.splits option.splits dest: write_members_raises)

lemma original_file_name_raises:
  "original_file_name resp url = Inl e \<Longrightarrow> e \<noteq> HTTPError status"
  by (auto simp: original_file_name_def urlparse_path_def urlsplit_def Let_def
           split: if_splits sum.splits option.splits prod.splits)

lemma file_download_never_raises_HTTPError:
  "file_download url w \<noteq> Inl (HTTPError status)"
proof
  assume raised: "file_download url w = Inl (HTTPError status)"
  show False
  proof (cases "makedirs ''job_files'' w")
    case (Inl e)
    with raised show ?thesis
      by (auto simp: file_download_def makedirs_def Let_def split: if_splits)
  next
    case (Inr w1)
    obtain res w2 where get: "requests_get url w1 = (res, w2)"
      by (cases "requests_get url w1")
    show ?thesis
    proof (cases res)
      case (Inl e)
      with raised Inr get show ?thesis
        by (auto simp: file_download_def requests_get_def split: sum.splits)
    next
      case resp: (Inr resp)
      show ?thesis
      proof (cases "original_file_name resp url")
        case (Inl e)
        with raised Inr get resp show ?thesis
          by (auto simp: file_download_def dest: original_file_name_raises)
      next
        case name: (Inr name)
        let ?file_type = "remove_dots (snd (splitext name))"
        let ?out = "path_join ''job_files'' [fst (uuid4 w2) @ ''.'' @ ?file_type]"
        show ?thesis
        proof (cases "write_file ?out (content resp) (snd (uuid4 w2))")
          case (Inl e)
          with raised Inr get resp name show ?thesis
            by (auto simp: file_download_def Let_def write_file_def split: if_splits)
        next
          case w4: (Inr w4)
          show ?thesis
          proof (cases "unzip ?file_type (fst (uuid4 w2)) ?out w4")
            case (Inl e)
            with raised Inr get resp name w4 show ?thesis
              by (auto simp: file_download_def Let_def dest: unzip_raises)
          next
            case (Inr x)
            with raised \<open>makedirs ''job_files'' w = Inr w1\<close> get resp name w4 show ?thesis
              by (cases x) (auto simp: file_download_def Let_def)
          qed
        qed
      qed
    qed
  qed
qed

subsection \<open>The path of a URL with scheme and authority\<close>











subsection \<open>Concrete runs\<close>

text \<open>Three ways to name the world a concrete run ends in.\<close>

lemma Inr_pairI: "map_sum id fst r = Inr a \<Longrightarrow> r = Inr (a, snd (projr r))"
  by (cases r) auto

lemma Inr_projrI: "\<not> isl r \<Longrightarrow> r = Inr (projr r)"
  by (cases r) auto

lemma pair_sndI: "fst r = a \<Longrightarrow> r = (a, snd r)"
  by (cases r) auto

subsection \<open>Claims about the batch download\<close>

text \<open>
  Claim C1. For every job and every list of URLs, a call of \<^verbatim>\<open>download_files_from_urls\<close>
  that returns gives a list of the length of the input whose entry at index \<open>i\<close> is what
  \<^verbatim>\<open>download_file_to_path\<close> returned for the URL at index \<open>i\<close>, run in the world the
  first \<open>i\<close> URLs left behind. A failed download never makes the call raise: the only
  exceptions that leave it are not \<open>RequestException\<close>s (they come from the file system).
\<close>

theorem download_files_from_urls_length_order:
  "case download_files_from_urls job_id (List urls) w of
     Inl e \<Rightarrow> \<not> is_RequestException e
   | Inr (downloaded_files, w') \<Rightarrow>
       length downloaded_files = length urls \<and>
       (\<exists>w1. makedirs (download_directory job_id w) w = Inr w1 \<and>
         (\<forall>i<length urls. \<exists>wi wj.
            executor_map (download_file_to_path (download_directory job_id w)) (take i urls) w1 =
              Inr (take i downloaded_files, wi) \<and>
            download_file_to_path (download_directory job_id w) (urls ! i) wi =
              Inr (downloaded_files ! i, wj)))"
proof (cases "download_files_from_urls job_id (List urls) w")
  case (Inl e)
  let ?f = "download_file_to_path (download_directory job_id w)"
  have "\<not> is_RequestException e"
  proof (cases "makedirs (download_directory job_id w) w")
    case (Inl e')
    with \<open>download_files_from_urls job_id (List urls) w = Inl e\<close> have "e' = e"
      by (simp add: download_files_from_urls_def)
    with Inl show ?thesis by (auto dest: makedirs_raises)
  next
    case (Inr w1)
    with \<open>download_files_from_urls job_id (List urls) w = Inl e\<close>
    have "executor_map ?f urls w1 = Inl e"
      by (simp add: download_files_from_urls_def)
    then show ?thesis
      by (rule executor_map_Inl[rotated]) (rule download_file_to_path_raises)
  qed
  with Inl show ?thesis by simp
next
  case (Inr res)
  obtain downloaded_files w' where res: "res = (downloaded_files, w')"
    by (cases res)
  let ?f = "download_file_to_path (download_directory job_id w)"
  from Inr res obtain w1 where mk: "makedirs (download_directory job_id w) w = Inr w1"
    and run: "executor_map ?f urls w1 = Inr (downloaded_files, w')"
    by (auto simp: download_files_from_urls_def split: sum.splits)
  have "length downloaded_files = length urls"
    using run by (rule executor_map_length)
  moreover have "\<forall>i<length urls. \<exists>wi wj.
      executor_map ?f (take i urls) w1 = Inr (take i downloaded_files, wi) \<and>
      ?f (urls ! i) wi = Inr (downloaded_files ! i, wj)"
    using executor_map_take[OF run] by blast
  ultimately show ?thesis
    using Inr res mk by simp
qed

theorem download_files_from_urls_length_order_witness:
  "\<exists>w'. download_files_from_urls ''job-1''
          (List [Some ''http://x/y/report.csv'', None, Some ''http://down/x'']) example_world =
        Inr ([Some ''/srv/worker/jobs/job-1/downloaded_files/1b4e28ba-2fa1-4d3b-a3f5-000000000000'',
              None, None], w')"
proof -
  let ?urls = "[Some ''http://x/y/report.csv'', None, Some ''http://down/x'']"
  let ?run = "download_files_from_urls ''job-1'' (List ?urls) example_world"
  have val: "map_sum id fst ?run =
      Inr [Some ''/srv/worker/jobs/job-1/downloaded_files/1b4e28ba-2fa1-4d3b-a3f5-000000000000'',
           None, None]"
    by code_simp
  then obtain fs w' where run: "?run = Inr (fs, w')"
    by (cases ?run) auto
  with download_files_from_urls_length_order[where job_id = "''job-1''" and urls = ?urls
      and w = example_world]
  have "length fs = 3" by simp
  with val run show ?thesis by simp
qed

text \<open>
  Claim C8. When the entry at index \<open>i\<close> of the input is \<open>None\<close>, the entry at index \<open>i\<close>
  of the output is \<open>None\<close>, and handling that slot leaves the world as it found it: the
  world \<open>wi\<close> after the first \<open>i\<close> URLs is the world the remaining URLs start in, so
  no request is logged (and no file written) for the slot.
\<close>

theorem none_slot_passes_through:
  assumes run: "download_files_from_urls job_id (List urls) w = Inr (downloaded_files, w')"
    and i: "i < length urls"
    and none: "urls ! i = None"
  shows "downloaded_files ! i = None \<and>
         (\<exists>w1 wi. makedirs (download_directory job_id w) w = Inr w1 \<and>
            executor_map (download_file_to_path (download_directory job_id w)) (take i urls) w1 =
              Inr (take i downloaded_files, wi) \<and>
            download_file_to_path (download_directory job_id w) (urls ! i) wi = Inr (None, wi) \<and>
            executor_map (download_file_to_path (download_directory job_id w))
              (drop (Suc i) urls) wi = Inr (drop (Suc i) downloaded_files, w'))"
proof -
  let ?f = "download_file_to_path (download_directory job_id w)"
  from run obtain w1 where mk: "makedirs (download_directory job_id w) w = Inr w1"
    and map: "executor_map ?f urls w1 = Inr (downloaded_files, w')"
    by (auto simp: download_files_from_urls_def split: sum.splits)
  from executor_map_take[OF map i] obtain wi wj where
    before: "executor_map ?f (take i urls) w1 = Inr (take i downloaded_files, wi)"
    and slot: "?f (urls ! i) wi = Inr (downloaded_files ! i, wj)"
    and after: "executor_map ?f (drop (Suc i) urls) wj = Inr (drop (Suc i) downloaded_files, w')"
    by blast
  from slot none have "downloaded_files ! i = None" and "wj = wi"
    by (simp_all add: download_file_to_path_def)
  with mk before slot after show ?thesis
    by auto
qed

theorem none_slot_passes_through_witness:
  "\<exists>w'. download_files_from_urls ''job-8''
          (List [None, Some ''http://x/y/report.csv'']) example_world =
        Inr ([None,
              Some ''/srv/worker/jobs/job-8/downloaded_files/1b4e28ba-2fa1-4d3b-a3f5-000000000000''],
             w') \<and>
        requests w' = [''http://x/y/report.csv'']"
proof -
  let ?urls = "[None, Some ''http://x/y/report.csv'']"
  let ?run = "download_files_from_urls ''job-8'' (List ?urls) example_world"
  let ?out = "[None,
     Some ''/srv/worker/jobs/job-8/downloaded_files/1b4e28ba-2fa1-4d3b-a3f5-000000000000'']"
  have run: "?run = Inr (?out, snd (projr ?run))"
    by (rule Inr_pairI) code_simp
  have reqs: "requests (snd (projr ?run)) = [''http://x/y/report.csv'']"
    by code_simp
  have "(0::nat) < length ?urls" and "?urls ! 0 = None"
    by simp_all
  from none_slot_passes_through[OF run this] have "?out ! 0 = None"
    by blast
  with run reqs show ?thesis
    by blast
qed

text \<open>
  Claim C2. A URL whose three attempts all fail yields \<open>None\<close> for its slot, leaves the
  files as they were, and does not make the batch raise: the batch goes on with the
  remaining URLs, and its outcome is theirs with \<open>None\<close> put in the slot.
\<close>

theorem failed_download_isolated:
  assumes mk: "makedirs (download_directory job_id w) w = Inr w1"
    and pre: "executor_map (download_file_to_path (download_directory job_id w)) pre w1 =
                Inr (before, wa)"
    and a1: "download_file u wa = (Inl e1, wb)"
    and a2: "download_file u wb = (Inl e2, wc)"
    and a3: "download_file u wc = (Inl e3, wd)"
  shows "download_file_to_path (download_directory job_id w) (Some u) wa =
           Inr (None, wd\<lparr>stdout := stdout wd @ [(u, e3)]\<rparr>) \<and>
         files (wd\<lparr>stdout := stdout wd @ [(u, e3)]\<rparr>) = files wa \<and>
         download_files_from_urls job_id (List (pre @ Some u # post)) w =
           (case executor_map (download_file_to_path (download_directory job_id w)) post
                   (wd\<lparr>stdout := stdout wd @ [(u, e3)]\<rparr>) of
              Inl e \<Rightarrow> Inl e
            | Inr (after, w') \<Rightarrow> Inr (before @ None # after, w'))"
proof -
  let ?f = "download_file_to_path (download_directory job_id w)"
  let ?wd = "wd\<lparr>stdout := stdout wd @ [(u, e3)]\<rparr>"
  have retry: "on_exception 0 (download_file u) wa = (Inl e3, wd)"
    using a1 a2 a3 by (rule on_exception_three_failures)
  moreover have "is_RequestException e3"
    using a3 by (rule download_file_raises)
  ultimately have slot: "?f (Some u) wa = Inr (None, ?wd)"
    by (simp add: download_file_to_path_def)
  have "files wd = files wa"
    using a1 a2 a3 by (auto dest!: download_file_files)
  then have unchanged: "files ?wd = files wa"
    by simp
  have "executor_map ?f (pre @ Some u # post) w1 =
          (case executor_map ?f post ?wd of
             Inl e \<Rightarrow> Inl e
           | Inr (after, w') \<Rightarrow> Inr (before @ None # after, w'))"
    by (simp add: executor_map_append pre slot split: sum.splits prod.splits)
  with mk have "download_files_from_urls job_id (List (pre @ Some u # post)) w =
          (case executor_map ?f post ?wd of
             Inl e \<Rightarrow> Inl e
           | Inr (after, w') \<Rightarrow> Inr (before @ None # after, w'))"
    by (simp add: download_files_from_urls_def)
  with slot unchanged show ?thesis
    by simp
qed


theorem failed_download_isolated_witness:
  "\<exists>wa wd. download_file_to_path (download_directory ''job-2'' example_world)
            (Some ''http://down/x'') wa = Inr (None, wd) \<and>
          files wd = files wa \<and>
          requests wd = requests wa @ [''http://down/x'', ''http://down/x'', ''http://down/x'']"
proof -
  let ?D = "download_directory ''job-2'' example_world"
  let ?u = "''http://down/x''"
  let ?e = "RequestException ''timed out''"
  let ?w1 = "projr (makedirs ?D example_world)"
  let ?pre = "executor_map (download_file_to_path ?D) [Some ''http://x/y/report.csv''] ?w1"
  let ?wa = "snd (projr ?pre)"
  let ?wb = "snd (download_file ?u ?wa)"
  let ?wc = "snd (download_file ?u ?wb)"
  let ?wd = "snd (download_file ?u ?wc)"
  have mk: "makedirs ?D example_world = Inr ?w1"
    by (rule Inr_projrI) code_simp
  have pre: "?pre =
      Inr ([Some ''/srv/worker/jobs/job-2/downloaded_files/1b4e28ba-2fa1-4d3b-a3f5-000000000000''],
           ?wa)"
    by (rule Inr_pairI) code_simp
  have a1: "download_file ?u ?wa = (Inl ?e, ?wb)"
    by (rule pair_sndI) code_simp
  have a2: "download_file ?u ?wb = (Inl ?e, ?wc)"
    by (rule pair_sndI) code_simp
  have a3: "download_file ?u ?wc = (Inl ?e, ?wd)"
    by (rule pair_sndI) code_simp
  have reqs: "requests ?wd = requests ?wa @ [?u, ?u, ?u]"
    by code_simp
  from failed_download_isolated[OF mk pre a1 a2 a3]
  have "download_file_to_path ?D (Some ?u) ?wa =
          Inr (None, ?wd\<lparr>stdout := stdout ?wd @ [(?u, ?e)]\<rparr>)"
    and "files (?wd\<lparr>stdout := stdout ?wd @ [(?u, ?e)]\<rparr>) = files ?wa"
    by blast+
  moreover from reqs have "requests (?wd\<lparr>stdout := stdout ?wd @ [(?u, ?e)]\<rparr>) =
      requests ?wa @ [?u, ?u, ?u]"
    by simp
  ultimately show ?thesis
    by blast
qed

subsection \<open>Claims about the single download\<close>

lemma file_download_one_request:
  assumes "file_download url w = Inr (r, w')"
  shows "requests w' = requests w @ [url]"
proof -
  from file_download_Inr[OF assms] obtain w4 file_name output_file_path where
    "requests w4 = requests w @ [url]"
    and "unzip (type r) file_name output_file_path w4 = Inr (extracted_path r, w')"
    by blast
  with unzip_result(2) show ?thesis
    by metis
qed

lemma file_download_transport_error:
  assumes "makedirs ''job_files'' w = Inr w1"
    and "http w url (length (requests w)) = Inl message"
  shows "file_download url w = Inl (RequestException message)"
  using assms makedirs_Inr[OF assms(1)]
  by (simp add: file_download_def requests_get_def)

text \<open>
  Claim C3. After a successful call of \<^verbatim>\<open>file\<close>, \<open>extracted_path\<close> is set exactly when
  \<open>type\<close> is \<open>zip\<close>; when it is set it is an absolute path (the working directory being
  one, as \<^verbatim>\<open>os.getcwd()\<close> always is) and names a directory of the resulting file system.
\<close>

theorem extracted_path_iff_zip:
  assumes run: "file_download url w = Inr (r, w')"
    and abs: "isabs (cwd w)"
  shows "(extracted_path r \<noteq> None) = (type r = ''zip'') \<and>
         (\<forall>p. extracted_path r = Some p \<longrightarrow> isabs p \<and> p \<in> dirs w')"
proof -
  from file_download_Inr[OF run] obtain w4 file_name output_file_path where
    cwd: "cwd w4 = cwd w"
    and unz: "unzip (type r) file_name output_file_path w4 = Inr (extracted_path r, w')"
    by blast
  have "(extracted_path r \<noteq> None) = (type r = ''zip'')"
    using unz by (rule unzip_result(1))
  moreover have "isabs p \<and> p \<in> dirs w'" if "extracted_path r = Some p" for p
    using unzip_result(4)[OF unz that] cwd abs by (auto simp: isabs_abspath)
  ultimately show ?thesis
    by blast
qed

theorem extracted_path_iff_zip_witness:
  "isabs (cwd example_world) \<and>
   map_sum id fst (file_download ''http://x/archive.zip'' example_world) =
     Inr \<lparr>file_path = ''/srv/worker/job_files/1b4e28ba-2fa1-4d3b-a3f5-000000000000.zip'',
          type = ''zip'', original_name = ''archive.zip'',
          extracted_path = Some ''/srv/worker/job_files/1b4e28ba-2fa1-4d3b-a3f5-000000000000''\<rparr> \<and>
   ''/srv/worker/job_files/1b4e28ba-2fa1-4d3b-a3f5-000000000000''
     \<in> dirs (snd (projr (file_download ''http://x/archive.zip'' example_world)))"
proof -
  let ?run = "file_download ''http://x/archive.zip'' example_world"
  let ?r = "\<lparr>file_path = ''/srv/worker/job_files/1b4e28ba-2fa1-4d3b-a3f5-000000000000.zip'',
          type = ''zip'', original_name = ''archive.zip'',
          extracted_path = Some ''/srv/worker/job_files/1b4e28ba-2fa1-4d3b-a3f5-000000000000''\<rparr>"
  have abs: "isabs (cwd example_world)"
    by code_simp
  have val: "map_sum id fst ?run = Inr ?r"
    by code_simp
  then have run: "?run = Inr (?r, snd (projr ?run))"
    by (rule Inr_pairI)
  from extracted_path_iff_zip[OF run abs]
  have "''/srv/worker/job_files/1b4e28ba-2fa1-4d3b-a3f5-000000000000'' \<in> dirs (snd (projr ?run))"
    by simp
  with abs val show ?thesis
    by blast
qed

text \<open>
  Claim C6, as amended. The \<open>type\<close> that \<^verbatim>\<open>file\<close> returns is the extension of
  \<open>original_name\<close> (as \<^verbatim>\<open>os.path.splitext\<close> gives it) without its dot, in the case it is
  written in: either there is no extension and \<open>type\<close> is empty, or the extension is a dot
  followed by \<open>type\<close>. The code does not convert it to lower case.
\<close>

theorem type_is_extension_without_dot:
  assumes run: "file_download url w = Inr (r, w')"
  shows "snd (splitext (original_name r)) = [] \<and> type r = [] \<or>
         snd (splitext (original_name r)) = CHR ''.'' # type r"
proof -
  from file_download_Inr[OF run] obtain name where
    "original_name r = name" and "type r = remove_dots (snd (splitext name))"
    by blast
  with remove_dots_ext[of name] show ?thesis
    by simp
qed

theorem type_is_extension_without_dot_witness:
  "map_sum id fst (file_download ''http://x/PHOTO.JPG'' example_world) =
     Inr \<lparr>file_path = ''/srv/worker/job_files/1b4e28ba-2fa1-4d3b-a3f5-000000000000.JPG'',
          type = ''JPG'', original_name = ''PHOTO.JPG'', extracted_path = None\<rparr> \<and>
   snd (splitext ''PHOTO.JPG'') = CHR ''.'' # ''JPG''"
proof -
  let ?run = "file_download ''http://x/PHOTO.JPG'' example_world"
  let ?r = "\<lparr>file_path = ''/srv/worker/job_files/1b4e28ba-2fa1-4d3b-a3f5-000000000000.JPG'',
          type = ''JPG'', original_name = ''PHOTO.JPG'', extracted_path = None\<rparr>"
  have val: "map_sum id fst ?run = Inr ?r"
    by code_simp
  then have run: "?run = Inr (?r, snd (projr ?run))"
    by (rule Inr_pairI)
  from type_is_extension_without_dot[OF run]
  have "snd (splitext ''PHOTO.JPG'') = CHR ''.'' # ''JPG''"
    by simp
  with val show ?thesis
    by blast
qed

text \<open>
  Claim C6 as stated fails: for a URL that ends in \<^verbatim>\<open>PHOTO.JPG\<close> the returned \<open>type\<close> is
  \<^verbatim>\<open>JPG\<close>, which is not the lower-case form \<^verbatim>\<open>jpg\<close> of the extension without its dot.
\<close>

theorem type_not_lowercase_counterexample:
  "map_sum id (type \<circ> fst) (file_download ''http://x/PHOTO.JPG'' example_world) = Inr ''JPG'' \<and>
   map_sum id (original_name \<circ> fst) (file_download ''http://x/PHOTO.JPG'' example_world) =
     Inr ''PHOTO.JPG'' \<and>
   ''JPG'' \<noteq> py_lower (remove_dots (snd (splitext ''PHOTO.JPG'')))"
  by code_simp

text \<open>
  Claim C7. \<^verbatim>\<open>file\<close> makes one request and a transport error of it propagates
  (\<open>file_download_one_request\<close>, \<open>file_download_transport_error\<close>), but the function
  never looks at the status code (\<open>file_download_never_raises_HTTPError\<close>), unlike
  \<^verbatim>\<open>download_file\<close>, which calls \<^verbatim>\<open>raise_for_status\<close>: for a URL answered with status 404
  the call succeeds and saves the body of the error page as the downloaded file.
\<close>

theorem file_download_ignores_status:
  "map_option status_code (map_of example_responses ''http://x/missing'') = Some 404 \<and>
   map_sum id fst (file_download ''http://x/missing'' example_world) =
     Inr \<lparr>file_path = ''/srv/worker/job_files/1b4e28ba-2fa1-4d3b-a3f5-000000000000.'',
          type = [], original_name = ''missing'', extracted_path = None\<rparr> \<and>
   files (snd (projr (file_download ''http://x/missing'' example_world)))
     ''/srv/worker/job_files/1b4e28ba-2fa1-4d3b-a3f5-000000000000.'' = Some ''Not Found'' \<and>
   requests (snd (projr (file_download ''http://x/missing'' example_world))) =
     [''http://x/missing'']"
  by code_simp

text \<open>
  Claim C5. For the header \<^verbatim>\<open>attachment; filename="data.json"\<close> the pattern captures the
  name with both quotes, so \<open>original_name\<close> contains \<^verbatim>\<open>data.json"\<close> as the claim says, but
  the closing quote then ends up in the extension: \<open>type\<close> is \<^verbatim>\<open>json"\<close> and not \<^verbatim>\<open>json\<close>, and
  the file is saved under that extension.
\<close>

theorem quoted_filename_type:
  "headers_get (headers (the (map_of example_responses ''http://x/download'')))
     ''Content-Disposition'' =
     Some (''attachment; filename='' @ [DQUOTE] @ ''data.json'' @ [DQUOTE]) \<and>
   map_sum id fst (file_download ''http://x/download'' example_world) =
     Inr \<lparr>file_path =
            ''/srv/worker/job_files/1b4e28ba-2fa1-4d3b-a3f5-000000000000.json'' @ [DQUOTE],
          type = ''json'' @ [DQUOTE],
          original_name = [DQUOTE] @ ''data.json'' @ [DQUOTE],
          extracted_path = None\<rparr>"
  by code_simp




text \<open>
  Claim C10, as amended. When the first occurrence of \<^verbatim>\<open>filename=\<close> in the header value
  is followed by at least one character that is not a line feed, \<open>original_name\<close> is all
  that follows this occurrence up to the first line feed, or up to the end of the value
  when there is none: quotes and later parameters are part of it.
\<close>

theorem original_name_from_header:
  assumes run: "file_download url w = Inr (r, w')"
    and resp: "fst (requests_get url w) = Inr resp"
    and header: "headers_get (headers resp) ''Content-Disposition'' =
                   Some (pre @ ''filename='' @ rest)"
    and first: "\<forall>i\<in>{0..<length pre}.
                  \<not> startswith (drop i (pre @ ''filename='' @ rest)) ''filename=''"
    and follows: "rest \<noteq> []" "hd rest \<noteq> LF"
  shows "original_name r = takeWhile (\<lambda>c. c \<noteq> LF) rest"
proof -
  from file_download_Inr[OF run] resp obtain name where
    name: "original_file_name resp url = Inr name" and r: "original_name r = name"
    by auto
  from re_findall_filename_first[OF first follows] name header
  have "name = takeWhile (\<lambda>c. c \<noteq> LF) rest"
    by (simp add: original_file_name_def)
  with r show ?thesis
    by simp
qed

theorem original_name_from_header_witness:
  "headers_get (headers (projr (fst (requests_get ''http://x/download'' example_world))))
     ''Content-Disposition'' =
     Some (''attachment; '' @ ''filename='' @ [DQUOTE] @ ''data.json'' @ [DQUOTE]) \<and>
   map_sum id (original_name \<circ> fst) (file_download ''http://x/download'' example_world) =
     Inr ([DQUOTE] @ ''data.json'' @ [DQUOTE])"
proof -
  let ?url = "''http://x/download''"
  let ?run = "file_download ?url example_world"
  let ?resp = "projr (fst (requests_get ?url example_world))"
  let ?pre = "''attachment; ''"
  let ?rest = "[DQUOTE] @ ''data.json'' @ [DQUOTE]"
  have resp: "fst (requests_get ?url example_world) = Inr ?resp"
    by (rule Inr_projrI) code_simp
  have header: "headers_get (headers ?resp) ''Content-Disposition'' =
      Some (?pre @ ''filename='' @ ?rest)"
    by code_simp
  have first: "\<forall>i\<in>{0..<length ?pre}.
      \<not> startswith (drop i (?pre @ ''filename='' @ ?rest)) ''filename=''"
    by code_simp
  have follows: "?rest \<noteq> []" "hd ?rest \<noteq> LF"
    by simp_all
  have "\<not> isl ?run"
    by code_simp
  then have run: "?run = Inr (fst (projr ?run), snd (projr ?run))"
    by (cases ?run) auto
  from original_name_from_header[OF run resp header first follows]
  have "original_name (fst (projr ?run)) = ?rest"
    by simp
  with run have "map_sum id (original_name \<circ> fst) ?run = Inr ?rest"
    by (metis comp_apply fst_conv map_sum.simps(2))
  with header show ?thesis
    by simp
qed

text \<open>
  Claim C10 as stated fails when nothing follows \<^verbatim>\<open>filename=\<close>: the header value
  \<^verbatim>\<open>attachment; filename=\<close> contains \<^verbatim>\<open>filename=\<close> and the rest of the value after it is
  empty, but the pattern needs at least one character, finds nothing, and the name comes
  from the URL.
\<close>

theorem original_name_from_header_counterexample:
  "headers_get (headers (the (map_of example_responses ''http://x/files/notes.txt'')))
     ''Content-Disposition'' = Some (''attachment; '' @ ''filename='' @ []) \<and>
   map_sum id (original_name \<circ> fst) (file_download ''http://x/files/notes.txt'' example_world) =
     Inr ''notes.txt'' \<and>
   ''notes.txt'' \<noteq> []"
  by code_simp

subsection \<open>The extension of a batch download\<close>

text \<open>
  Claim C4. The batch download means to take the extension from the \<open>filename\<close> parameter
  of the \<^verbatim>\<open>Content-Disposition\<close> header, but \<^verbatim>\<open>dict(msg.items())\<close> maps the names of the
  message's headers to their values, so its only key is \<^verbatim>\<open>Content-Disposition\<close>, the
  lookup of \<^verbatim>\<open>filename\<close> gives the default, and the extension is empty for every header
  value of one line, whatever file name it carries. (The second half of the claim holds:
  no header, no extension.)
\<close>

theorem download_file_extension_empty:
  assumes run: "download_file url w = (Inr (file_data, file_extension), w')"
    and resp: "fst (requests_get url w) = Inr response"
    and one_line: "case headers_get (headers response) ''Content-Disposition'' of
                     None \<Rightarrow> True
                   | Some v \<Rightarrow> CR \<notin> set v \<and> LF \<notin> set v"
  shows "file_extension = []"
proof -
  let ?cd = "headers_get (headers response) ''Content-Disposition''"
  let ?params = "if truthy ?cd
                 then message_items (''Content-Disposition: '' @ format_optional ?cd) else []"
  from run resp have ext: "file_extension = snd (splitext (dict_get ?params ''filename'' []))"
    by (cases "requests_get url w"; cases "raise_for_status response")
       (auto simp: download_file_def Let_def)
  have "''filename'' \<notin> fst ` set ?params"
  proof (cases ?cd)
    case None
    then show ?thesis
      by (simp add: truthy_def)
  next
    case (Some v)
    with one_line have "CR \<notin> set v" and "LF \<notin> set v"
      by simp_all
    then have "map fst (message_items (''Content-Disposition: '' @ v)) = [''Content-Disposition'']"
      by (rule message_items_content_disposition)
    then have "fst ` set (message_items (''Content-Disposition: '' @ v)) = {''Content-Disposition''}"
      by (metis list.set_map list.simps(15) empty_set)
    then have "''filename'' \<notin> fst ` set (message_items (''Content-Disposition: '' @ v))"
      by simp
    with Some show ?thesis
      by (cases "truthy (Some v)") (simp_all add: format_optional_def)
  qed
  then have "dict_get ?params ''filename'' [] = []"
    by (rule dict_get_absent)
  with ext show ?thesis
    by (simp add: splitext_empty)
qed

theorem download_file_extension_empty_witness:
  "headers_get (headers (projr (fst (requests_get ''http://x/report'' example_world))))
     ''Content-Disposition'' =
     Some (''attachment; filename='' @ [DQUOTE] @ ''report.pdf'' @ [DQUOTE]) \<and>
   fst (download_file ''http://x/report'' example_world) = Inr (''%PDF'', []) \<and>
   map_sum id fst (download_files_from_urls ''job-4'' (Str ''http://x/report'') example_world) =
     Inr [Some ''/srv/worker/jobs/job-4/downloaded_files/1b4e28ba-2fa1-4d3b-a3f5-000000000000'']"
proof -
  let ?url = "''http://x/report''"
  let ?resp = "projr (fst (requests_get ?url example_world))"
  let ?run = "download_file ?url example_world"
  have resp: "fst (requests_get ?url example_world) = Inr ?resp"
    by (rule Inr_projrI) code_simp
  have header: "headers_get (headers ?resp) ''Content-Disposition'' =
      Some (''attachment; filename='' @ [DQUOTE] @ ''report.pdf'' @ [DQUOTE])"
    by code_simp
  then have one_line: "case headers_get (headers ?resp) ''Content-Disposition'' of
      None \<Rightarrow> True | Some v \<Rightarrow> CR \<notin> set v \<and> LF \<notin> set v"
    by simp
  have data: "map_sum id fst (fst ?run) = Inr ''%PDF''"
    by code_simp
  then have "fst ?run = Inr (''%PDF'', snd (projr (fst ?run)))"
    by (cases "fst ?run") auto
  then have run: "?run = (Inr (''%PDF'', snd (projr (fst ?run))), snd ?run)"
    by (rule pair_sndI)
  from download_file_extension_empty[OF run resp one_line]
  have "snd (projr (fst ?run)) = []" .
  with run have "fst ?run = Inr (''%PDF'', [])"
    by (metis fst_conv)
  moreover have "map_sum id fst
      (download_files_from_urls ''job-4'' (Str ?url) example_world) =
      Inr [Some ''/srv/worker/jobs/job-4/downloaded_files/1b4e28ba-2fa1-4d3b-a3f5-000000000000'']"
    by code_simp
  ultimately show ?thesis
    using header by simp
qed

end
